theory Spec2Isabelle
  imports Complex_Main "HOL-Library.Word" "HOL-Library.AList"
begin

unbundle bit_operations_syntax

section \<open>ZED camera streamer and camera viewer\<close>

text \<open>
  A shallow embedding of \<^verbatim>\<open>scripts/stream_zed.py\<close> (class \<^verbatim>\<open>ZEDStreamer\<close> and
  \<^verbatim>\<open>main\<close>) and \<^verbatim>\<open>scripts/view_zed_cam.py\<close> (class \<^verbatim>\<open>CameraViewer\<close>).

  Conventions of the embedding:
  \<^item> A clock reading (a result of \<^verbatim>\<open>time.time()\<close>) is the real number that the double
    stands for. The latency is computed in double precision, with its rounding. The
    FPS estimate and the comparisons of the streaming loop are computed over the reals.
  \<^item> A Python exception is a value of \<open>py_error\<close>; a function that can raise returns
    \<open>py_error + 'a\<close>, with \<open>Inl\<close> the exception.
  \<^item> A Python dict is an association list in insertion order; \<^verbatim>\<open>d[k]\<close> is
    \<open>map_of d k\<close> and raises \<^verbatim>\<open>KeyError\<close> on \<open>None\<close>.
  \<^item> The ZED SDK, ZeroMQ, msgpack and OpenCV are external collaborators. What they
    return is an input of the model; each call that acts on them is appended to a
    trace of \<open>call\<close>s, so that "which calls does the code make, and how often" is a
    property of the model. Console output is not modelled.
\<close>

subsection \<open>Values\<close>

datatype RESOLUTION = HD2K | HD1080 | HD720 | VGA

datatype ERROR_CODE = SUCCESS | FAILURE nat

datatype py_error =
    RuntimeError ERROR_CODE
  | KeyError string
  | AttributeError
  | TypeError
  | ZeroDivisionError
  | ZMQError
  | UnpackError

text \<open>
  An image is a \<^verbatim>\<open>height x width x channels\<close> array of \<^verbatim>\<open>uint8\<close>; a depth map is a
  \<^verbatim>\<open>height x width\<close> array of \<^verbatim>\<open>float32\<close>, kept as its raw 32-bit patterns.
\<close>

type_synonym image = "8 word list list list"
type_synonym depth = "32 word list list"

datatype pyval =
    PyNone
  | Float real
  | Str string
  | Image image
  | Depth depth
  | Dict "(string \<times> pyval) list"

type_synonym pydict = "(string \<times> pyval) list"

definition getitem :: "pydict \<Rightarrow> string \<Rightarrow> py_error + pyval" where
  "getitem d k = (case map_of d k of None \<Rightarrow> Inl (KeyError k) | Some v \<Rightarrow> Inr v)"

definition contains :: "string \<Rightarrow> pydict \<Rightarrow> bool" where
  "contains k d = (map_of d k \<noteq> None)"

definition keys :: "pydict \<Rightarrow> string set" where
  "keys d = fst ` set d"

subsection \<open>\<^verbatim>\<open>ZEDStreamer._parse_resolution\<close>\<close>

text \<open>
  \<^verbatim>\<open>str.lower\<close> is a builtin over Unicode text; it is a parameter \<open>lower\<close> of the model.
  \<open>ascii_lower\<close> is the instance for ASCII text: \<^verbatim>\<open>A\<close>..\<^verbatim>\<open>Z\<close> go to \<^verbatim>\<open>a\<close>..\<^verbatim>\<open>z\<close>.
\<close>

definition ascii_lower_char :: "char \<Rightarrow> char" where
  "ascii_lower_char c =
     (case map_of (zip ''ABCDEFGHIJKLMNOPQRSTUVWXYZ'' ''abcdefghijklmnopqrstuvwxyz'') c of
        None \<Rightarrow> c
      | Some l \<Rightarrow> l)"

definition ascii_lower :: "string \<Rightarrow> string" where
  "ascii_lower s = map ascii_lower_char s"

definition resolutions :: "(string \<times> RESOLUTION) list" where
  "resolutions =
     [(''2k'', HD2K), (''1080p'', HD1080), (''720p'', HD720), (''vga'', VGA)]"

definition parse_resolution :: "(string \<Rightarrow> string) \<Rightarrow> string \<Rightarrow> RESOLUTION" where
  "parse_resolution lower resolution =
     (case map_of resolutions (lower resolution) of None \<Rightarrow> HD720 | Some r \<Rightarrow> r)"

subsection \<open>\<^verbatim>\<open>CameraViewer\<close>: FPS window and latency\<close>

text \<open>
  \<^verbatim>\<open>collections.deque(maxlen=30)\<close>: appending to a full deque discards one item from
  the opposite end.
\<close>

definition maxlen :: nat where
  "maxlen = 30"

definition deque_append :: "real list \<Rightarrow> real \<Rightarrow> real list" where
  "deque_append xs x = (if length xs < maxlen then xs @ [x] else tl xs @ [x])"

text \<open>
  \<^verbatim>\<open>msgpack.packb(message, default=m.encode)\<close> yields bytes that determine the message;
  \<open>Packed message\<close> stands for them. \<^verbatim>\<open>msgpack.unpackb\<close> is a parameter \<open>unpackb\<close>
  wherever the viewer calls it.
\<close>

datatype packed = Packed pydict

text \<open>
  The viewer's socket: \<open>incoming\<close> is what successive \<^verbatim>\<open>recv()\<close> calls will find (a
  message, the \<^verbatim>\<open>zmq.Again\<close> of an elapsed \<^verbatim>\<open>RCVTIMEO\<close>, or another ZeroMQ error);
  when nothing is left, nothing arrives any more and \<^verbatim>\<open>recv()\<close> times out.
  \<open>recv_calls\<close> counts the calls made.
\<close>

datatype recv_outcome = Received packed | Again | RecvFailed

record sub_socket =
  incoming :: "recv_outcome list"
  recv_calls :: nat

definition recv :: "sub_socket \<Rightarrow> recv_outcome \<times> sub_socket" where
  "recv sock =
     (case incoming sock of
        [] \<Rightarrow> (Again, sock\<lparr>recv_calls := recv_calls sock + 1\<rparr>)
      | r # rs \<Rightarrow> (r, sock\<lparr>incoming := rs, recv_calls := recv_calls sock + 1\<rparr>))"

record CameraViewer =
  socket :: sub_socket
  fps_history :: "real list"
  last_frame_time :: real
  save_frames :: bool
  frame_count :: nat
  save_dir :: "string option"

text \<open>
  \<^verbatim>\<open>CameraViewer.__init__\<close>; \<open>arriving\<close> is what the socket will deliver and \<open>now\<close> the
  clock reading.
\<close>

definition CameraViewer_init :: "recv_outcome list \<Rightarrow> real \<Rightarrow> CameraViewer" where
  "CameraViewer_init arriving now =
     \<lparr>socket = \<lparr>incoming = arriving, recv_calls = 0\<rparr>,
      fps_history = [],
      last_frame_time = now,
      save_frames = False,
      frame_count = 0,
      save_dir = None\<rparr>"

text \<open>The block \<^verbatim>\<open># Update FPS\<close> of \<^verbatim>\<open>receive_frame\<close>, with \<open>now\<close> the clock reading.\<close>

definition update_fps :: "real \<Rightarrow> CameraViewer \<Rightarrow> CameraViewer" where
  "update_fps now v =
     v\<lparr>fps_history := deque_append (fps_history v) (now - last_frame_time v),
       last_frame_time := now\<rparr>"

text \<open>
  \<open>times_out sock\<close>: no message arrives within \<^verbatim>\<open>RCVTIMEO\<close> on the next \<^verbatim>\<open>recv()\<close>.
\<close>

definition times_out :: "sub_socket \<Rightarrow> bool" where
  "times_out sock = (case incoming sock of [] \<Rightarrow> True | r # rs \<Rightarrow> r = Again)"

text \<open>
  \<^verbatim>\<open>receive_frame\<close>: Python's \<^verbatim>\<open>None\<close> is \<open>PyNone\<close>. Only \<^verbatim>\<open>zmq.Again\<close> is caught; any
  other exception of \<^verbatim>\<open>recv\<close> or \<^verbatim>\<open>unpackb\<close> propagates.
\<close>

definition receive_frame ::
  "(packed \<Rightarrow> py_error + pyval) \<Rightarrow> real \<Rightarrow> CameraViewer \<Rightarrow> (py_error + pyval) \<times> CameraViewer" where
  "receive_frame unpackb now v =
     (case recv (socket v) of
        (Again, sock) \<Rightarrow> (Inr PyNone, v\<lparr>socket := sock\<rparr>)
      | (RecvFailed, sock) \<Rightarrow> (Inl ZMQError, v\<lparr>socket := sock\<rparr>)
      | (Received bytes, sock) \<Rightarrow>
          (case unpackb bytes of
             Inl e \<Rightarrow> (Inl e, v\<lparr>socket := sock\<rparr>)
           | Inr data \<Rightarrow> (Inr data, update_fps now (v\<lparr>socket := sock\<rparr>))))"

text \<open>\<^verbatim>\<open>get_fps\<close>; the division raises \<^verbatim>\<open>ZeroDivisionError\<close> on a zero mean.\<close>

definition get_fps :: "CameraViewer \<Rightarrow> py_error + real" where
  "get_fps v =
     (if length (fps_history v) < 2 then Inr 0
      else let mean = sum_list (fps_history v) / real (length (fps_history v))
           in if mean = 0 then Inl ZeroDivisionError else Inr (1 / mean))"

text \<open>
  \<open>arrivals ts v\<close> is the viewer after messages were received at the clock readings
  \<open>ts\<close>, one after the other; \<open>gaps l ts\<close> are the inter-arrival durations of these
  readings, the first one counted from \<open>l\<close>.
\<close>

fun gaps :: "real \<Rightarrow> real list \<Rightarrow> real list" where
  "gaps l [] = []"
| "gaps l (t # ts) = (t - l) # gaps t ts"

definition arrivals :: "real list \<Rightarrow> CameraViewer \<Rightarrow> CameraViewer" where
  "arrivals ts v = fold update_fps ts v"

text \<open>
  \<open>readings t D n\<close> are the clock readings of \<open>n\<close> arrivals that follow the reading \<open>t\<close>
  at the constant interval \<open>D\<close>.
\<close>

fun readings :: "real \<Rightarrow> real \<Rightarrow> nat \<Rightarrow> real list" where
  "readings t D 0 = []"
| "readings t D (Suc n) = (t + D) # readings (t + D) D n"

text \<open>
  A decoder that returns the packed map as it is: what \<^verbatim>\<open>msgpack.unpackb\<close> does on a
  map of strings, numbers and maps.
\<close>

fun unpackb_plain :: "packed \<Rightarrow> py_error + pyval" where
  "unpackb_plain (Packed m) = Inr (Dict m)"

subsection \<open>Double-precision arithmetic\<close>

text \<open>
  The value of a finite double is a real number. \<open>round_nearest\<close> rounds a real to the
  nearest number with a 53-bit significand, ties to the even significand; below
  \<open>2 powr (- 1022)\<close> the spacing stays \<open>2 powr (- 1074)\<close> (gradual underflow).
\<close>

definition round_half_even :: "real \<Rightarrow> int" where
  "round_half_even r =
     (if r - of_int \<lfloor>r\<rfloor> < 1 / 2 then \<lfloor>r\<rfloor>
      else if r - of_int \<lfloor>r\<rfloor> > 1 / 2 then \<lfloor>r\<rfloor> + 1
      else if even \<lfloor>r\<rfloor> then \<lfloor>r\<rfloor> else \<lfloor>r\<rfloor> + 1)"

definition exponent :: "real \<Rightarrow> int" where
  "exponent x = max \<lfloor>log 2 \<bar>x\<bar>\<rfloor> (- 1022)"

definition ulp :: "real \<Rightarrow> real" where
  "ulp x = 2 powr of_int (exponent x - 52)"

definition round_nearest :: "real \<Rightarrow> real" where
  "round_nearest x = (if x = 0 then 0 else ulp x * of_int (round_half_even (x / ulp x)))"

text \<open>
  The result of an operation: the rounded exact result, or an infinity when rounding
  reaches \<open>2 ^ 1024\<close>. The two zeros are not told apart. \<open>dle\<close> is the comparison
  \<^verbatim>\<open><=\<close> of doubles, false on \<open>NaN\<close>.
\<close>

datatype double = NaN | NegInf | Finite real | PosInf

definition to_double :: "real \<Rightarrow> double" where
  "to_double x =
     (let r = round_nearest x
      in if 2 ^ 1024 \<le> r then PosInf else if r \<le> - (2 ^ 1024) then NegInf else Finite r)"

fun dle :: "double \<Rightarrow> double \<Rightarrow> bool" where
  "dle NaN b = False"
| "dle a NaN = False"
| "dle NegInf b = True"
| "dle a PosInf = True"
| "dle (Finite x) (Finite y) = (x \<le> y)"
| "dle a b = False"

definition fsub :: "real \<Rightarrow> real \<Rightarrow> double" where
  "fsub a b = to_double (a - b)"

fun fmul :: "double \<Rightarrow> real \<Rightarrow> double" where
  "fmul NaN k = NaN"
| "fmul (Finite a) k = to_double (a * k)"
| "fmul PosInf k = (if 0 < k then PosInf else if k < 0 then NegInf else NaN)"
| "fmul NegInf k = (if 0 < k then NegInf else if k < 0 then PosInf else NaN)"

text \<open>
  The latency shown by \<^verbatim>\<open>CameraViewer.run\<close>, for the clock reading \<open>now\<close> and the timestamp
  \<open>capturedAt\<close> of the message, both finite doubles:
  \<^verbatim>\<open>latency_ms = (time.time() - timestamps[camera_name]) * 1000\<close>.
\<close>

definition latency_ms :: "real \<Rightarrow> real \<Rightarrow> double" where
  "latency_ms now capturedAt = fmul (fsub now capturedAt) 1000"

text \<open>Two adjacent doubles, clock readings of November 2025.\<close>

definition example_now :: real where
  "example_now = 1762250000 + 21 / 4194304"

definition example_later :: real where
  "example_later = 1762250000 + 22 / 4194304"

subsection \<open>\<^verbatim>\<open>ZEDStreamer\<close>\<close>

datatype DEPTH_MODE = ULTRA | NONE

record InitParameters =
  camera_resolution :: RESOLUTION
  camera_fps :: int
  depth_mode :: DEPTH_MODE
  serial_number :: "int option"

text \<open>The calls that act on the device, on ZeroMQ and on OpenCV.\<close>

datatype call =
    ZedOpen InitParameters
  | ZedGrab
  | ZedRetrieveImage
  | ZedRetrieveMeasure
  | ZedClose
  | ContextNew
  | SocketNew
  | SocketBind int
  | SocketSend packed
  | SocketClose
  | ContextTerm
  | WriterNew string
  | WriterWrite image
  | WriterRelease
  | ImShow string
  | WaitKey
  | DestroyAllWindows

text \<open>
  A reference to an object of a library (a ZeroMQ context or socket, a video writer);
  such an object is truthy.
\<close>

datatype handle = Handle

text \<open>
  The attributes of a \<^verbatim>\<open>ZEDStreamer\<close>. \<open>image_mat\<close> is \<^verbatim>\<open>self.image\<close>, and \<open>calls\<close> is not
  an attribute: it is the trace of the calls made so far.
\<close>

record ZEDStreamer =
  fps :: int
  enable_depth :: bool
  running :: bool
  width :: nat
  height :: nat
  image_mat :: image
  depth_map :: "depth option"
  zmq_context :: "handle option"
  zmq_socket :: "handle option"
  video_writer :: "handle option"
  calls :: "call list"

text \<open>
  \<^verbatim>\<open>__init__\<close>. \<open>status\<close> is what \<^verbatim>\<open>zed.open\<close> returns, \<open>w\<close> and \<open>h\<close> the resolution the
  camera reports. When it raises no streamer exists; the trace is returned with the error.
\<close>

definition ZEDStreamer_init ::
  "(string \<Rightarrow> string) \<Rightarrow> string \<Rightarrow> int \<Rightarrow> bool \<Rightarrow> int option \<Rightarrow> ERROR_CODE \<Rightarrow> nat \<Rightarrow> nat
     \<Rightarrow> py_error \<times> call list + ZEDStreamer" where
  "ZEDStreamer_init lower resolution fps' enable_depth' serial status w h =
     (let init_params =
        \<lparr>camera_resolution = parse_resolution lower resolution,
         camera_fps = fps',
         depth_mode = (if enable_depth' then ULTRA else NONE),
         serial_number = serial\<rparr>
      in if status \<noteq> SUCCESS then Inl (RuntimeError status, [ZedOpen init_params])
         else Inr
           \<lparr>fps = fps',
            enable_depth = enable_depth',
            running = False,
            width = w,
            height = h,
            image_mat = [],
            depth_map = (if enable_depth' then Some [] else None),
            zmq_context = None,
            zmq_socket = None,
            video_writer = None,
            calls = [ZedOpen init_params]\<rparr>)"

text \<open>
  \<^verbatim>\<open>start_zmq_server\<close>. \<open>zmq_present\<close> tells whether the import of \<^verbatim>\<open>zmq\<close> succeeded and
  \<open>bind_ok\<close> whether \<^verbatim>\<open>bind\<close> does; a failing \<^verbatim>\<open>bind\<close> raises.
\<close>

definition start_zmq_server ::
  "bool \<Rightarrow> bool \<Rightarrow> int \<Rightarrow> ZEDStreamer \<Rightarrow> (py_error + bool) \<times> ZEDStreamer" where
  "start_zmq_server zmq_present bind_ok port s =
     (if \<not> zmq_present then (Inr False, s)
      else
        let s1 = s\<lparr>zmq_context := Some Handle, calls := calls s @ [ContextNew]\<rparr>;
            s2 = s1\<lparr>zmq_socket := Some Handle, calls := calls s1 @ [SocketNew]\<rparr>;
            s3 = s2\<lparr>calls := calls s2 @ [SocketBind port]\<rparr>
        in if bind_ok then (Inr True, s3) else (Inl ZMQError, s3))"

definition start_video_writer :: "string \<Rightarrow> ZEDStreamer \<Rightarrow> ZEDStreamer" where
  "start_video_writer output_path s =
     s\<lparr>video_writer := Some Handle, calls := calls s @ [WriterNew output_path]\<rparr>"

text \<open>
  What one iteration of the streaming loop finds outside: the clock readings of its
  \<^verbatim>\<open>time.time()\<close> calls in the order of the source, the outcome of \<^verbatim>\<open>zed.grab\<close>, the
  data the device hands out, and the key \<^verbatim>\<open>cv2.waitKey\<close> returns.
\<close>

record tick =
  t_duration :: real
  grab_status :: ERROR_CODE
  left_view :: image
  depth_measure :: depth
  t_capture :: real
  key :: int
  t_fps :: real
  t_fps_div :: real
  t_fps_reset :: real

text \<open>
  \<^verbatim>\<open>grab_frame\<close>. \<^verbatim>\<open>image_data[:, :, :3][:, :, ::-1]\<close> keeps the first three channels of
  each pixel and reverses them.
\<close>

definition grab_frame :: "tick \<Rightarrow> ZEDStreamer \<Rightarrow> pydict option \<times> ZEDStreamer" where
  "grab_frame tk s =
     (let s1 = s\<lparr>calls := calls s @ [ZedGrab]\<rparr>
      in if grab_status tk \<noteq> SUCCESS then (None, s1)
         else
           let s2 = s1\<lparr>image_mat := left_view tk, calls := calls s1 @ [ZedRetrieveImage]\<rparr>;
               rgb_image = map (map (\<lambda>px. rev (take 3 px))) (image_mat s2);
               result = [(''image'', Image rgb_image), (''timestamp'', Float (t_capture tk))]
           in if enable_depth s2 \<and> depth_map s2 \<noteq> None then
                let s3 = s2\<lparr>depth_map := Some (depth_measure tk),
                            calls := calls s2 @ [ZedRetrieveMeasure]\<rparr>
                in (Some (AList.update ''depth'' (Depth (depth_measure tk)) result), s3)
              else (Some result, s2))"

text \<open>
  \<^verbatim>\<open>publish_frame\<close>. \<open>encode_message\<close> is the dict it builds from the frame; a frame
  without \<^verbatim>\<open>timestamp\<close> or \<^verbatim>\<open>image\<close> raises \<^verbatim>\<open>KeyError\<close>.
\<close>

definition encode_message :: "pydict \<Rightarrow> py_error + pydict" where
  "encode_message frame =
     (case getitem frame ''timestamp'' of
        Inl e \<Rightarrow> Inl e
      | Inr ts \<Rightarrow>
          (case getitem frame ''image'' of
             Inl e \<Rightarrow> Inl e
           | Inr img \<Rightarrow>
               (let message = [(''timestamp'', ts), (''image'', img)]
                in case map_of frame ''depth'' of
                     None \<Rightarrow> Inr message
                   | Some d \<Rightarrow> Inr (AList.update ''depth'' d message))))"

definition publish_frame :: "pydict \<Rightarrow> ZEDStreamer \<Rightarrow> py_error + ZEDStreamer" where
  "publish_frame frame s =
     (if zmq_socket s = None then Inr s
      else case encode_message frame of
             Inl e \<Rightarrow> Inl e
           | Inr message \<Rightarrow> Inr (s\<lparr>calls := calls s @ [SocketSend (Packed message)]\<rparr>))"

text \<open>\<^verbatim>\<open>frame["image"][:, :, ::-1]\<close>: the image of a frame with its channels reversed.\<close>

definition bgr_of :: "pydict \<Rightarrow> py_error + image" where
  "bgr_of frame =
     (case getitem frame ''image'' of
        Inl e \<Rightarrow> Inl e
      | Inr (Image img) \<Rightarrow> Inr (map (map rev) img)
      | Inr _ \<Rightarrow> Inl TypeError)"

text \<open>
  The body of the \<^verbatim>\<open>while\<close> loop of \<^verbatim>\<open>run\<close>, from the duration check on. It ends with
  \<^verbatim>\<open>continue\<close> or the end of the body (\<open>Continue\<close>, with the new \<^verbatim>\<open>frame_count\<close> and
  \<^verbatim>\<open>fps_time\<close>), with \<^verbatim>\<open>break\<close>, or with an exception.
\<close>

datatype flow =
    Continue ZEDStreamer nat real
  | Break ZEDStreamer
  | Raise py_error ZEDStreamer

definition truthy :: "real option \<Rightarrow> bool" where
  "truthy duration = (case duration of None \<Rightarrow> False | Some d \<Rightarrow> d \<noteq> 0)"

definition fps_report :: "tick \<Rightarrow> ZEDStreamer \<Rightarrow> nat \<Rightarrow> real \<Rightarrow> flow" where
  "fps_report tk s frame_count' fps_time =
     (if t_fps tk - fps_time \<ge> 2 then
        (if t_fps_div tk - fps_time = 0 then Raise ZeroDivisionError s
         else Continue s 0 (t_fps_reset tk))
      else Continue s frame_count' fps_time)"

definition show_preview :: "tick \<Rightarrow> pydict \<Rightarrow> ZEDStreamer \<Rightarrow> nat \<Rightarrow> real \<Rightarrow> flow" where
  "show_preview tk frame s frame_count' fps_time =
     (case bgr_of frame of
        Inl e \<Rightarrow> Raise e s
      | Inr bgr_frame \<Rightarrow>
          let s1 = s\<lparr>calls := calls s @ [ImShow ''ZED Stream'']\<rparr>;
              s2 = (if enable_depth s1 \<and> contains ''depth'' frame
                    then s1\<lparr>calls := calls s1 @ [ImShow ''ZED Depth'']\<rparr> else s1);
              s3 = s2\<lparr>calls := calls s2 @ [WaitKey]\<rparr>
          in if key tk AND 0xFF = 113 then Break s3
             else fps_report tk s3 frame_count' fps_time)"

definition write_video :: "pydict \<Rightarrow> ZEDStreamer \<Rightarrow> py_error + ZEDStreamer" where
  "write_video frame s =
     (if video_writer s = None then Inr s
      else case bgr_of frame of
             Inl e \<Rightarrow> Inl e
           | Inr bgr_frame \<Rightarrow> Inr (s\<lparr>calls := calls s @ [WriterWrite bgr_frame]\<rparr>))"

definition iteration ::
  "bool \<Rightarrow> real option \<Rightarrow> real \<Rightarrow> tick \<Rightarrow> ZEDStreamer \<Rightarrow> nat \<Rightarrow> real \<Rightarrow> flow" where
  "iteration display duration start_time tk s frame_count' fps_time =
     (if truthy duration \<and> t_duration tk - start_time > the duration then Break s
      else case grab_frame tk s of
             (None, s1) \<Rightarrow> Continue s1 frame_count' fps_time
           | (Some frame, s1) \<Rightarrow>
               (case (if zmq_socket s1 \<noteq> None then publish_frame frame s1 else Inr s1) of
                  Inl e \<Rightarrow> Raise e s1
                | Inr s2 \<Rightarrow>
                    (case write_video frame s2 of
                       Inl e \<Rightarrow> Raise e s2
                     | Inr s3 \<Rightarrow>
                         if display then show_preview tk frame s3 (frame_count' + 1) fps_time
                         else fps_report tk s3 (frame_count' + 1) fps_time)))"

text \<open>
  The loop runs against a script: one \<open>Tick\<close> for each iteration, and \<open>Interrupt\<close> where
  \<^verbatim>\<open>KeyboardInterrupt\<close> is raised (taken at the start of an iteration). The result is
  \<open>None\<close> when the script ends while the loop is still running; otherwise it holds the
  exception that leaves \<^verbatim>\<open>run\<close>, if any, and the streamer.
\<close>

datatype step = Tick tick | Interrupt

fun run_loop ::
  "bool \<Rightarrow> real option \<Rightarrow> real \<Rightarrow> step list \<Rightarrow> ZEDStreamer \<Rightarrow> nat \<Rightarrow> real
     \<Rightarrow> (py_error option \<times> ZEDStreamer) option" where
  "run_loop display duration start_time [] s frame_count' fps_time =
     (if \<not> running s then Some (None, s) else None)"
| "run_loop display duration start_time (Interrupt # steps) s frame_count' fps_time =
     Some (None, s)"
| "run_loop display duration start_time (Tick tk # steps) s frame_count' fps_time =
     (if \<not> running s then Some (None, s)
      else case iteration display duration start_time tk s frame_count' fps_time of
             Continue s' frame_count'' fps_time' \<Rightarrow>
               run_loop display duration start_time steps s' frame_count'' fps_time'
           | Break s' \<Rightarrow> Some (None, s')
           | Raise e s' \<Rightarrow> Some (Some e, s'))"

text \<open>
  \<^verbatim>\<open>run\<close>; \<open>start_time\<close> and \<open>fps_time\<close> are its first two clock readings. An exception
  other than \<^verbatim>\<open>KeyboardInterrupt\<close> skips the final \<^verbatim>\<open>self.running = False\<close>.
\<close>

definition run ::
  "bool \<Rightarrow> real option \<Rightarrow> real \<Rightarrow> real \<Rightarrow> step list \<Rightarrow> ZEDStreamer
     \<Rightarrow> (py_error option \<times> ZEDStreamer) option" where
  "run display duration start_time fps_time steps s =
     (case run_loop display duration start_time steps (s\<lparr>running := True\<rparr>) 0 fps_time of
        None \<Rightarrow> None
      | Some (Some e, s') \<Rightarrow> Some (Some e, s')
      | Some (None, s') \<Rightarrow> Some (None, s'\<lparr>running := False\<rparr>))"

text \<open>\<^verbatim>\<open>close\<close>.\<close>

definition close :: "ZEDStreamer \<Rightarrow> ZEDStreamer" where
  "close s =
     (let s1 = (if video_writer s \<noteq> None then s\<lparr>calls := calls s @ [WriterRelease]\<rparr> else s);
          s2 = (if zmq_socket s1 \<noteq> None then s1\<lparr>calls := calls s1 @ [SocketClose]\<rparr> else s1);
          s3 = (if zmq_context s2 \<noteq> None then s2\<lparr>calls := calls s2 @ [ContextTerm]\<rparr> else s2)
      in s3\<lparr>calls := calls s3 @ [ZedClose, DestroyAllWindows]\<rparr>)"

text \<open>
  \<^verbatim>\<open>main\<close>: the parsed arguments, and what the process finds outside. The result is the
  exception that leaves \<^verbatim>\<open>main\<close>, if any, with the trace of all calls made.
\<close>

record args =
  arg_resolution :: string
  arg_fps :: int
  arg_depth :: bool
  arg_serial :: "int option"
  arg_port :: int
  arg_display :: bool
  arg_save :: "string option"
  arg_duration :: "real option"

record outside =
  zmq_present :: bool
  open_status :: ERROR_CODE
  camera_width :: nat
  camera_height :: nat
  bind_ok :: bool
  t_start :: real
  t_fps_start :: real
  script :: "step list"

definition main_try :: "args \<Rightarrow> outside \<Rightarrow> ZEDStreamer \<Rightarrow> (py_error option \<times> ZEDStreamer) option" where
  "main_try a out streamer =
     (case (if arg_port a > 0
            then start_zmq_server (zmq_present out) (bind_ok out) (arg_port a) streamer
            else (Inr False, streamer)) of
        (Inl e, s1) \<Rightarrow> Some (Some e, s1)
      | (Inr started, s1) \<Rightarrow>
          let s2 = (case arg_save a of
                      None \<Rightarrow> s1
                    | Some path \<Rightarrow> if path \<noteq> [] then start_video_writer path s1 else s1)
          in run (arg_display a) (arg_duration a) (t_start out) (t_fps_start out) (script out) s2)"

definition main :: "(string \<Rightarrow> string) \<Rightarrow> args \<Rightarrow> outside \<Rightarrow> (py_error option \<times> call list) option" where
  "main lower a out =
     (case ZEDStreamer_init lower (arg_resolution a) (arg_fps a) (arg_depth a) (arg_serial a)
             (open_status out) (camera_width out) (camera_height out) of
        Inl (e, cs) \<Rightarrow> Some (Some e, cs)
      | Inr streamer \<Rightarrow>
          (case main_try a out streamer of
             None \<Rightarrow> None
           | Some (r, s) \<Rightarrow> Some (r, calls (close s))))"


text \<open>
  A tick with a 1 x 2 BGRA image and its depth map, and a streamer as \<^verbatim>\<open>__init__\<close> makes
  it, for concrete runs.
\<close>

definition example_tick :: tick where
  "example_tick =
     \<lparr>t_duration = 100,
      grab_status = SUCCESS,
      left_view = [[[1, 2, 3, 255], [4, 5, 6, 255]]],
      depth_measure = [[7, 8]],
      t_capture = 100,
      key = - 1,
      t_fps = 100,
      t_fps_div = 100,
      t_fps_reset = 100\<rparr>"

definition example_streamer :: "bool \<Rightarrow> ZEDStreamer" where
  "example_streamer d = projr (ZEDStreamer_init ascii_lower ''720p'' 30 d None SUCCESS 1280 720)"




text \<open>Arguments and surroundings of \<^verbatim>\<open>main\<close> for concrete runs.\<close>

definition example_args :: args where
  "example_args =
     \<lparr>arg_resolution = ''720p'',
      arg_fps = 30,
      arg_depth = False,
      arg_serial = None,
      arg_port = 5556,
      arg_display = False,
      arg_save = None,
      arg_duration = None\<rparr>"

definition example_outside :: "ERROR_CODE \<Rightarrow> step list \<Rightarrow> outside" where
  "example_outside status steps =
     \<lparr>zmq_present = True,
      open_status = status,
      camera_width = 1280,
      camera_height = 720,
      bind_ok = True,
      t_start = 100,
      t_fps_start = 100,
      script = steps\<rparr>"

subsection \<open>\<^verbatim>\<open>CameraViewer.run\<close>: from a message to its images\<close>

text \<open>\<^verbatim>\<open>data.get(k, default)\<close> on whatever \<^verbatim>\<open>unpackb\<close> returned, and \<^verbatim>\<open>not x\<close>.\<close>

fun dict_get :: "pyval \<Rightarrow> string \<Rightarrow> pyval \<Rightarrow> py_error + pyval" where
  "dict_get (Dict d) k dflt = Inr (case map_of d k of None \<Rightarrow> dflt | Some v \<Rightarrow> v)"
| "dict_get other k dflt = Inl AttributeError"

fun falsy :: "pyval \<Rightarrow> bool" where
  "falsy PyNone = True"
| "falsy (Float x) = (x = 0)"
| "falsy (Str str) = (str = [])"
| "falsy (Dict d) = (d = [])"
| "falsy other = False"

text \<open>
  The head of the loop body of \<^verbatim>\<open>CameraViewer.run\<close>, from the test of the received data
  to the test of \<^verbatim>\<open>images\<close>. It ends with \<^verbatim>\<open>continue\<close> on no data (\<open>NoData\<close>), with
  \<^verbatim>\<open>continue\<close> after "No images in frame" (\<open>NoImages\<close>), with an exception, or it hands
  \<^verbatim>\<open>images\<close> and \<^verbatim>\<open>timestamps\<close> to the rest of the body (\<open>Images\<close>), which alone calls
  \<^verbatim>\<open>decode_image\<close> and is not part of the model.
\<close>

datatype selection = NoData | NoImages | Images pyval pyval

definition select_images :: "pyval \<Rightarrow> py_error + selection" where
  "select_images data =
     (if data = PyNone then Inr NoData
      else case dict_get data ''images'' (Dict []) of
             Inl e \<Rightarrow> Inl e
           | Inr images \<Rightarrow>
               (case dict_get data ''timestamps'' (Dict []) of
                  Inl e \<Rightarrow> Inl e
                | Inr timestamps \<Rightarrow>
                    if falsy images then Inr NoImages else Inr (Images images timestamps)))"

text \<open>
  What the viewer does with the bytes of a message: \<^verbatim>\<open>unpackb\<close> in \<^verbatim>\<open>receive_frame\<close>, then
  the head of the loop body.
\<close>

definition view_message :: "(packed \<Rightarrow> py_error + pyval) \<Rightarrow> packed \<Rightarrow> py_error + selection" where
  "view_message unpackb bytes =
     (case unpackb bytes of
        Inl e \<Rightarrow> Inl e
      | Inr data \<Rightarrow> select_images data)"

section \<open>Properties\<close>

subsection \<open>Resolution parsing\<close>

lemma ascii_lower_VGA: "ascii_lower ''VGA'' = ''vga''"
  by (simp add: ascii_lower_def ascii_lower_char_def)

text \<open>
  Claim C10. \<^verbatim>\<open>_parse_resolution\<close> is a total function of its argument: a string whose
  lower-case form is \<^verbatim>\<open>vga\<close>, \<^verbatim>\<open>720p\<close>, \<^verbatim>\<open>1080p\<close> or \<^verbatim>\<open>2k\<close> goes to the
  resolution of that name, and every other string goes to \<open>HD720\<close>; no branch raises.
\<close>

theorem parse_resolution_total:
  "(lower s = ''vga'' \<longrightarrow> parse_resolution lower s = VGA) \<and>
   (lower s = ''720p'' \<longrightarrow> parse_resolution lower s = HD720) \<and>
   (lower s = ''1080p'' \<longrightarrow> parse_resolution lower s = HD1080) \<and>
   (lower s = ''2k'' \<longrightarrow> parse_resolution lower s = HD2K) \<and>
   (lower s \<notin> {''vga'', ''720p'', ''1080p'', ''2k''} \<longrightarrow> parse_resolution lower s = HD720)"
  by (simp add: parse_resolution_def resolutions_def)

theorem parse_resolution_total_witness:
  "parse_resolution ascii_lower ''VGA'' = VGA \<and>
   parse_resolution ascii_lower ''720P'' = HD720 \<and>
   parse_resolution ascii_lower ''1080p'' = HD1080 \<and>
   parse_resolution ascii_lower ''2K'' = HD2K \<and>
   parse_resolution ascii_lower ''4k'' = HD720 \<and>
   parse_resolution ascii_lower [] = HD720"
  using parse_resolution_total [of ascii_lower "''VGA''"]
    parse_resolution_total [of ascii_lower "''720P''"]
    parse_resolution_total [of ascii_lower "''1080p''"]
    parse_resolution_total [of ascii_lower "''2K''"]
    parse_resolution_total [of ascii_lower "''4k''"]
    parse_resolution_total [of ascii_lower "[]"]
  by (simp add: ascii_lower_def ascii_lower_char_def)

subsection \<open>Latency\<close>

lemma round_half_even_of_int: "round_half_even (of_int n) = n"
  by (simp add: round_half_even_def)

lemma round_half_even_bounds:
  "\<lfloor>r\<rfloor> \<le> round_half_even r \<and> round_half_even r \<le> \<lfloor>r\<rfloor> + 1"
  by (simp add: round_half_even_def)

lemma round_half_even_mono:
  assumes "r \<le> s"
  shows "round_half_even r \<le> round_half_even s"
proof (cases "\<lfloor>r\<rfloor> = \<lfloor>s\<rfloor>")
  case True
  with assms show ?thesis
    by (auto simp: round_half_even_def)
next
  case False
  with assms have "\<lfloor>r\<rfloor> < \<lfloor>s\<rfloor>"
    using floor_mono [of r s] by linarith
  then have "round_half_even r \<le> \<lfloor>s\<rfloor>"
    using round_half_even_bounds [of r] by linarith
  also have "\<dots> \<le> round_half_even s"
    using round_half_even_bounds [of s] by simp
  finally show ?thesis .
qed

lemma ulp_pos: "0 < ulp x"
  by (simp add: ulp_def)

lemma below_next_binade:
  assumes "x \<noteq> 0"
  shows "\<bar>x\<bar> < 2 powr of_int (exponent x + 1)"
proof -
  have "\<lfloor>log 2 \<bar>x\<bar>\<rfloor> \<le> exponent x" by (simp add: exponent_def)
  then have "log 2 \<bar>x\<bar> < of_int (exponent x + 1)"
    by linarith
  with assms show ?thesis
    by (simp add: log_less_iff)
qed

lemma above_binade:
  assumes "x \<noteq> 0" and "- 1022 < exponent x"
  shows "2 powr of_int (exponent x) \<le> \<bar>x\<bar>"
proof -
  from assms(2) have "exponent x = \<lfloor>log 2 \<bar>x\<bar>\<rfloor>"
    by (simp add: exponent_def max_def split: if_splits)
  then have "of_int (exponent x) \<le> log 2 \<bar>x\<bar>" by simp
  with assms(1) show ?thesis
    by (simp add: le_log_iff)
qed

lemma exponent_mono:
  assumes "x \<noteq> 0" and "\<bar>x\<bar> \<le> \<bar>y\<bar>"
  shows "exponent x \<le> exponent y"
proof -
  from assms have "log 2 \<bar>x\<bar> \<le> log 2 \<bar>y\<bar>" by simp
  then have "\<lfloor>log 2 \<bar>x\<bar>\<rfloor> \<le> \<lfloor>log 2 \<bar>y\<bar>\<rfloor>" by (rule floor_mono)
  then show ?thesis by (simp add: exponent_def)
qed

lemma powr_shift: "2 powr (a - 52) * 2 powr 53 = (2::real) powr (a + 1)"
proof -
  have "2 powr (a - 52) * 2 powr 53 = (2::real) powr ((a - 52) + 53)"
    by (rule powr_add [symmetric])
  also have "(a - 52) + 53 = a + 1" by simp
  finally show ?thesis .
qed

lemma powr_shift': "2 powr (a - 52) * 2 powr 52 = (2::real) powr a"
proof -
  have "2 powr (a - 52) * 2 powr 52 = (2::real) powr ((a - 52) + 52)"
    by (rule powr_add [symmetric])
  also have "(a - 52) + 52 = a" by simp
  finally show ?thesis .
qed

lemma two_powr_53: "(2::real) powr 53 = 2 ^ 53" and two_powr_52: "(2::real) powr 52 = 2 ^ 52"
  by (simp_all only: powr_numeral zero_less_numeral)

lemma ulp_times: "ulp x * 2 ^ 53 = 2 powr of_int (exponent x + 1)"
  unfolding ulp_def two_powr_53 [symmetric] of_int_diff of_int_add of_int_numeral of_int_1
  by (rule powr_shift)

lemma ulp_times': "ulp x * 2 ^ 52 = 2 powr of_int (exponent x)"
  unfolding ulp_def two_powr_52 [symmetric] of_int_diff of_int_numeral
  by (rule powr_shift')

lemma round_half_even_le:
  "r \<le> of_int n \<Longrightarrow> round_half_even r \<le> n"
  and round_half_even_ge: "of_int n \<le> r \<Longrightarrow> n \<le> round_half_even r"
  using round_half_even_mono [of r "of_int n"] round_half_even_mono [of "of_int n" r]
  by (simp_all add: round_half_even_of_int)

lemma scaled_le: "0 < u \<Longrightarrow> x \<le> u * of_int n \<Longrightarrow> u * of_int (round_half_even (x / u)) \<le> u * of_int n"
proof -
  assume u: "0 < u" and "x \<le> u * of_int n"
  then have "x / u \<le> of_int n" by (simp add: pos_divide_le_eq mult.commute)
  then have "round_half_even (x / u) \<le> n" by (rule round_half_even_le)
  with u show ?thesis by simp
qed

lemma scaled_ge: "0 < u \<Longrightarrow> u * of_int n \<le> x \<Longrightarrow> u * of_int n \<le> u * of_int (round_half_even (x / u))"
proof -
  assume u: "0 < u" and "u * of_int n \<le> x"
  then have "of_int n \<le> x / u" by (simp add: pos_le_divide_eq mult.commute)
  then have "n \<le> round_half_even (x / u)" by (rule round_half_even_ge)
  with u show ?thesis by simp
qed

lemma round_nearest_nonneg: "0 \<le> x \<Longrightarrow> 0 \<le> round_nearest x"
  using scaled_ge [of "ulp x" 0 x] ulp_pos [of x] by (simp add: round_nearest_def)

lemma round_nearest_nonpos: "x \<le> 0 \<Longrightarrow> round_nearest x \<le> 0"
  using scaled_le [of "ulp x" x 0] ulp_pos [of x] by (simp add: round_nearest_def)

lemma ulp_53: "ulp x * real_of_int (2 ^ 53) = 2 powr of_int (exponent x + 1)"
  and ulp_53_neg: "ulp x * real_of_int (- (2 ^ 53)) = - (2 powr of_int (exponent x + 1))"
  and ulp_52: "ulp x * real_of_int (2 ^ 52) = 2 powr of_int (exponent x)"
  and ulp_52_neg: "ulp x * real_of_int (- (2 ^ 52)) = - (2 powr of_int (exponent x))"
  using ulp_times [of x] ulp_times' [of x] by simp_all

lemma round_nearest_upper:
  assumes "x \<noteq> 0"
  shows "round_nearest x \<le> 2 powr of_int (exponent x + 1)"
proof -
  have "x \<le> ulp x * real_of_int (2 ^ 53)"
    unfolding ulp_53 using below_next_binade [OF assms] by linarith
  from scaled_le [OF ulp_pos this, unfolded ulp_53] assms show ?thesis
    by (simp add: round_nearest_def)
qed

lemma round_nearest_lower:
  assumes "x \<noteq> 0"
  shows "- (2 powr of_int (exponent x + 1)) \<le> round_nearest x"
proof -
  have "ulp x * real_of_int (- (2 ^ 53)) \<le> x"
    unfolding ulp_53_neg using below_next_binade [OF assms] by linarith
  from scaled_ge [OF ulp_pos this, unfolded ulp_53_neg] assms show ?thesis
    by (simp add: round_nearest_def)
qed

lemma round_nearest_above:
  assumes "0 < x" and "- 1022 < exponent x"
  shows "2 powr of_int (exponent x) \<le> round_nearest x"
proof -
  have "ulp x * real_of_int (2 ^ 52) \<le> x"
    unfolding ulp_52 using above_binade [of x] assms by simp
  from scaled_ge [OF ulp_pos this, unfolded ulp_52] assms show ?thesis
    by (simp add: round_nearest_def)
qed

lemma round_nearest_below:
  assumes "x < 0" and "- 1022 < exponent x"
  shows "round_nearest x \<le> - (2 powr of_int (exponent x))"
proof -
  have "x \<le> ulp x * real_of_int (- (2 ^ 52))"
    unfolding ulp_52_neg using above_binade [of x] assms by simp
  from scaled_le [OF ulp_pos this, unfolded ulp_52_neg] assms show ?thesis
    by (simp add: round_nearest_def)
qed

lemma round_nearest_same_binade:
  assumes "x \<le> y" and "exponent x = exponent y" and "x \<noteq> 0" and "y \<noteq> 0"
  shows "round_nearest x \<le> round_nearest y"
proof -
  have u: "ulp x = ulp y" by (simp add: ulp_def assms(2))
  from assms(1) have "x / ulp y \<le> y / ulp y"
    using ulp_pos [of y] by (simp add: divide_right_mono)
  then have "round_half_even (x / ulp y) \<le> round_half_even (y / ulp y)"
    by (rule round_half_even_mono)
  then show ?thesis
    using ulp_pos [of y] assms(3,4) by (simp add: round_nearest_def u)
qed

lemma round_nearest_mono:
  assumes "x \<le> y"
  shows "round_nearest x \<le> round_nearest y"
proof -
  consider "x \<le> 0" "0 \<le> y" | "0 < x" | "y < 0" by linarith
  then show ?thesis
  proof cases
    case 1
    then show ?thesis
      using round_nearest_nonpos [of x] round_nearest_nonneg [of y] by linarith
  next
    case 2
    with assms have y: "0 < y" by simp
    from 2 y assms have "exponent x \<le> exponent y"
      by (intro exponent_mono) simp_all
    then consider "exponent x = exponent y" | "exponent x < exponent y" by linarith
    then show ?thesis
    proof cases
      case 1
      with assms 2 y show ?thesis by (intro round_nearest_same_binade) simp_all
    next
      case b: 2
      have "- 1022 \<le> exponent x" by (simp add: exponent_def)
      with b have "- 1022 < exponent y" by linarith
      from round_nearest_above [OF y this]
      have l: "2 powr of_int (exponent y) \<le> round_nearest y" .
      from 2 have "round_nearest x \<le> 2 powr of_int (exponent x + 1)"
        by (intro round_nearest_upper) simp
      also from b have "\<dots> \<le> 2 powr of_int (exponent y)"
        by (intro powr_mono) simp_all
      finally show ?thesis using l by linarith
    qed
  next
    case 3
    with assms have x: "x < 0" by simp
    from 3 x assms have "exponent y \<le> exponent x"
      by (intro exponent_mono) simp_all
    then consider "exponent x = exponent y" | "exponent y < exponent x" by linarith
    then show ?thesis
    proof cases
      case 1
      with assms 3 x show ?thesis by (intro round_nearest_same_binade) simp_all
    next
      case b: 2
      have "- 1022 \<le> exponent y" by (simp add: exponent_def)
      with b have "- 1022 < exponent x" by linarith
      from round_nearest_below [OF x this]
      have u: "round_nearest x \<le> - (2 powr of_int (exponent x))" .
      from b have "(2::real) powr of_int (exponent y + 1) \<le> 2 powr of_int (exponent x)"
        by (intro powr_mono) simp_all
      moreover from 3 have "- (2 powr of_int (exponent y + 1)) \<le> round_nearest y"
        by (intro round_nearest_lower) simp
      ultimately show ?thesis using u by linarith
    qed
  qed
qed

lemma to_double_mono: "x \<le> y \<Longrightarrow> dle (to_double x) (to_double y)"
  using round_nearest_mono [of x y] by (simp add: to_double_def Let_def)

lemma to_double_nonneg: "0 \<le> x \<Longrightarrow> dle (Finite 0) (to_double x)"
  using round_nearest_nonneg [of x] by (simp add: to_double_def Let_def)

lemma to_double_not_NaN: "to_double x \<noteq> NaN"
  by (simp add: to_double_def Let_def)

lemma dle_PosInf: "a \<noteq> NaN \<Longrightarrow> dle a PosInf"
  and dle_NegInf: "b \<noteq> NaN \<Longrightarrow> dle NegInf b"
  by (cases a; simp) (cases b; simp)

lemma fmul_mono:
  assumes "0 < k" and "dle a b"
  shows "dle (fmul a k) (fmul b k)"
proof (cases a)
  case NaN
  with assms show ?thesis by simp
next
  case NegInf
  with assms show ?thesis
    by (cases b) (simp_all add: dle_NegInf to_double_not_NaN)
next
  case (Finite x)
  show ?thesis
  proof (cases b)
    case (Finite y)
    with assms \<open>a = Finite x\<close> have "x * k \<le> y * k" by simp
    with Finite \<open>a = Finite x\<close> show ?thesis by (simp add: to_double_mono)
  qed (use assms Finite in \<open>simp_all add: dle_PosInf to_double_not_NaN\<close>)
next
  case PosInf
  with assms show ?thesis by (cases b) simp_all
qed

lemma exponent_eq:
  assumes "2 ^ k \<le> \<bar>x\<bar>" and "\<bar>x\<bar> < 2 ^ Suc k"
  shows "exponent x = int k"
proof -
  from assms(1) have p: "0 < \<bar>x\<bar>"
    by (smt (verit) zero_less_power)
  have "(2::real) powr real k \<le> \<bar>x\<bar>" "\<bar>x\<bar> < 2 powr real (Suc k)"
    using assms by (simp_all only: powr_realpow zero_less_numeral)
  with p have "real k \<le> log 2 \<bar>x\<bar>" "log 2 \<bar>x\<bar> < real (Suc k)"
    by (simp_all add: le_log_iff log_less_iff)
  then have "\<lfloor>log 2 \<bar>x\<bar>\<rfloor> = int k"
    by (intro floor_unique) simp_all
  then show ?thesis by (simp add: exponent_def)
qed

lemma ulp_eq:
  assumes "exponent x = int k"
  shows "ulp x = 2 ^ k / 2 ^ 52"
proof -
  have "ulp x = 2 powr (real k - 52)"
    by (simp add: ulp_def assms)
  also have "\<dots> = 2 powr real k / 2 powr 52"
    by (rule powr_diff)
  also have "\<dots> = 2 ^ k / 2 ^ 52"
    by (simp only: powr_realpow powr_numeral zero_less_numeral)
  finally show ?thesis .
qed

lemma round_nearest_eq:
  assumes "2 ^ k \<le> \<bar>x\<bar>" and "\<bar>x\<bar> < 2 ^ Suc k"
  shows "round_nearest x = 2 ^ k / 2 ^ 52 * of_int (round_half_even (x / (2 ^ k / 2 ^ 52)))"
proof -
  from assms(1) have "x \<noteq> 0"
    by (smt (verit) zero_less_power)
  then show ?thesis
    by (simp only: round_nearest_def ulp_eq [OF exponent_eq [OF assms]] if_False)
qed

lemma example_now_double: "to_double example_now = Finite example_now"
  and example_later_double: "to_double example_later = Finite example_later"
  unfolding to_double_def example_now_def example_later_def
  by (subst round_nearest_eq [of 30]; simp add: round_half_even_def)+

lemma example_now_ms: "to_double (example_now * 1000) = Finite (1762250000000 + 21 / 4096)"
  and example_later_ms: "to_double (example_later * 1000) = Finite (1762250000000 + 21 / 4096)"
  unfolding to_double_def example_now_def example_later_def
  by (subst round_nearest_eq [of 40]; simp add: round_half_even_def)+

lemma two_double: "to_double 2 = Finite 2" and three_double: "to_double 3 = Finite 3"
  unfolding to_double_def
  by (subst round_nearest_eq [of 1]; simp add: round_half_even_def)+

lemma two_ms: "to_double 2000 = Finite 2000" and three_ms: "to_double 3000 = Finite 3000"
  unfolding to_double_def
  by (subst round_nearest_eq [of 10]; simp add: round_half_even_def)
     (subst round_nearest_eq [of 11]; simp add: round_half_even_def)

text \<open>
  Claim C7, as amended. The latency is \<open>now - capturedAt\<close> times 1000, computed in
  double precision. It is non-negative whenever \<open>capturedAt \<le> now\<close>, and for a fixed
  \<open>capturedAt\<close> it does not decrease when \<open>now\<close> increases.
\<close>

theorem latency_ms_props:
  "latency_ms now capturedAt = fmul (fsub now capturedAt) 1000 \<and>
   (capturedAt \<le> now \<longrightarrow> dle (Finite 0) (latency_ms now capturedAt)) \<and>
   (now \<le> now' \<longrightarrow> dle (latency_ms now capturedAt) (latency_ms now' capturedAt))"
proof (intro conjI impI)
  show "latency_ms now capturedAt = fmul (fsub now capturedAt) 1000"
    by (simp add: latency_ms_def)
next
  assume "capturedAt \<le> now"
  then have "dle (Finite 0) (fsub now capturedAt)"
    by (simp add: fsub_def to_double_nonneg)
  from fmul_mono [OF _ this, of 1000] show "dle (Finite 0) (latency_ms now capturedAt)"
    using to_double_nonneg [of 0] by (simp add: latency_ms_def to_double_def round_nearest_def)
next
  assume "now \<le> now'"
  then have "dle (fsub now capturedAt) (fsub now' capturedAt)"
    by (simp add: fsub_def to_double_mono)
  from fmul_mono [OF _ this, of 1000]
  show "dle (latency_ms now capturedAt) (latency_ms now' capturedAt)"
    by (simp add: latency_ms_def)
qed

theorem latency_ms_props_witness:
  "(10::real) \<le> 12 \<and> dle (Finite 0) (latency_ms 12 10) \<and>
   (12::real) \<le> 13 \<and> dle (latency_ms 12 10) (latency_ms 13 10) \<and>
   latency_ms 12 10 = Finite 2000 \<and> latency_ms 13 10 = Finite 3000"
  using latency_ms_props [of 12 10 13]
  by (simp add: latency_ms_def fsub_def two_double three_double two_ms three_ms)

text \<open>
  The growth is not strict: the two adjacent clock readings \<open>example_now\<close> and
  \<open>example_later\<close> give the same latency for the timestamp 0.
\<close>

theorem latency_ms_strict_counterexample:
  "to_double example_now = Finite example_now \<and>
   to_double example_later = Finite example_later \<and>
   0 \<le> example_now \<and> example_now < example_later \<and>
   latency_ms example_now 0 = Finite (1762250000000 + 21 / 4096) \<and>
   latency_ms example_later 0 = Finite (1762250000000 + 21 / 4096)"
  by (simp add: latency_ms_def fsub_def example_now_double example_later_double
      example_now_ms example_later_ms)
     (simp add: example_now_def example_later_def)

subsection \<open>The FPS window\<close>

lemma deque_append_drop:
  "length xs \<le> maxlen \<Longrightarrow> deque_append xs x = drop (Suc (length xs) - maxlen) (xs @ [x])"
  by (cases xs) (auto simp: deque_append_def maxlen_def)

lemma deque_append_length: "length xs \<le> maxlen \<Longrightarrow> length (deque_append xs x) \<le> maxlen"
  by (auto simp: deque_append_def maxlen_def)

lemma arrivals_window:
  "length (fps_history v) \<le> maxlen \<Longrightarrow>
   fps_history (arrivals ts v) =
     drop (length (fps_history v) + length ts - maxlen) (fps_history v @ gaps (last_frame_time v) ts) \<and>
   length (gaps (last_frame_time v) ts) = length ts"
proof (induction ts arbitrary: v)
  case Nil
  then show ?case by (simp add: arrivals_def)
next
  case (Cons t ts)
  let ?v = "update_fps t v"
  let ?h = "fps_history v"
  let ?x = "t - last_frame_time v"
  have h': "fps_history ?v = drop (Suc (length ?h) - maxlen) (?h @ [?x])"
    using Cons.prems by (simp add: update_fps_def deque_append_drop)
  have l': "last_frame_time ?v = t" by (simp add: update_fps_def)
  have len': "length (fps_history ?v) \<le> maxlen"
    using Cons.prems by (simp add: update_fps_def deque_append_length)
  have lenh: "length (fps_history ?v) = Suc (length ?h) - (Suc (length ?h) - maxlen)"
    by (simp add: h')
  from Cons.IH [OF len'] have IH:
    "fps_history (arrivals ts ?v) =
       drop (length (fps_history ?v) + length ts - maxlen) (fps_history ?v @ gaps t ts)"
    and gl: "length (gaps t ts) = length ts"
    by (simp_all add: l')
  have "fps_history (arrivals (t # ts) v) = fps_history (arrivals ts ?v)"
    by (simp add: arrivals_def)
  also have "\<dots> = drop (length (fps_history ?v) + length ts - maxlen)
       (drop (Suc (length ?h) - maxlen) (?h @ [?x]) @ gaps t ts)"
    by (simp add: IH h')
  also have "drop (Suc (length ?h) - maxlen) (?h @ [?x]) @ gaps t ts =
       drop (Suc (length ?h) - maxlen) ((?h @ [?x]) @ gaps t ts)"
    by (simp only: drop_append) (simp add: maxlen_def)
  also have "(?h @ [?x]) @ gaps t ts = ?h @ ?x # gaps t ts"
    by simp
  also have "drop (length (fps_history ?v) + length ts - maxlen)
        (drop (Suc (length ?h) - maxlen) (?h @ ?x # gaps t ts)) =
       drop (length (fps_history ?v) + length ts - maxlen + (Suc (length ?h) - maxlen))
        (?h @ ?x # gaps t ts)"
    by (simp only: drop_drop)
  also have "length (fps_history ?v) + length ts - maxlen + (Suc (length ?h) - maxlen) =
       length ?h + length (t # ts) - maxlen"
    using Cons.prems lenh by (simp add: maxlen_def) 
  finally show ?case by (simp add: gl)
qed

lemma get_fps_const:
  assumes "2 \<le> length (fps_history v)" "\<forall>d \<in> set (fps_history v). d = D" "D \<noteq> 0"
  shows "get_fps v = Inr (1 / D)"
proof -
  have "fps_history v = replicate (length (fps_history v)) D"
    using assms(2) by (simp add: replicate_length_same)
  then have "sum_list (fps_history v) = real (length (fps_history v)) * D"
    by (metis sum_list_replicate)
  moreover have "fps_history v \<noteq> []"
    using assms(1) by auto
  ultimately show ?thesis
    using assms(1,3) by (simp add: get_fps_def Let_def)
qed

lemma length_gaps: "length (gaps l ts) = length ts"
  by (induction ts arbitrary: l) simp_all

lemma get_fps_steady:
  assumes "length (fps_history v) \<le> maxlen" and "maxlen \<le> length ts"
    and "\<forall>d \<in> set (gaps t0 ts). d = D" and "D \<noteq> 0"
  shows "get_fps (arrivals (t0 # ts) v) = Inr (1 / D)"
proof -
  let ?h = "fps_history v"
  let ?x = "t0 - last_frame_time v"
  from arrivals_window [OF assms(1), of "t0 # ts"]
  have "fps_history (arrivals (t0 # ts) v) =
      drop (length ?h + Suc (length ts) - maxlen) (?h @ ?x # gaps t0 ts)"
    by simp
  also from assms(2) have "length ?h + Suc (length ts) - maxlen =
      (length ts - maxlen) + length (?h @ [?x])"
    by simp
  also have "drop ((length ts - maxlen) + length (?h @ [?x])) (?h @ ?x # gaps t0 ts) =
      drop (length ts - maxlen) (drop (length (?h @ [?x])) ((?h @ [?x]) @ gaps t0 ts))"
    by (simp only: drop_drop append_assoc append_Cons append_Nil)
  also have "drop (length (?h @ [?x])) ((?h @ [?x]) @ gaps t0 ts) = gaps t0 ts"
    by (rule append_eq_conv_conj [THEN iffD1, THEN conjunct2, symmetric]) (rule refl)
  finally have w: "fps_history (arrivals (t0 # ts) v) = drop (length ts - maxlen) (gaps t0 ts)" .
  have "set (fps_history (arrivals (t0 # ts) v)) \<subseteq> set (gaps t0 ts)"
    unfolding w by (rule set_drop_subset)
  with assms(3) have all: "\<forall>d \<in> set (fps_history (arrivals (t0 # ts) v)). d = D"
    by blast
  from assms(2) have "length (fps_history (arrivals (t0 # ts) v)) = maxlen"
    by (simp add: w length_gaps)
  then have "2 \<le> length (fps_history (arrivals (t0 # ts) v))"
    by (simp add: maxlen_def)
  from get_fps_const [OF this all assms(4)] show ?thesis .
qed

lemma gaps_readings: "gaps t (readings t D n) = replicate n D"
  by (induction n arbitrary: t) simp_all

lemma length_readings: "length (readings t D n) = n"
  by (induction n arbitrary: t) simp_all

text \<open>
  Claim C3, as amended. \<^verbatim>\<open>get_fps\<close> returns 0 while fewer than 2 samples are recorded.
  With at least 2 samples it returns the reciprocal of their mean, and raises
  \<^verbatim>\<open>ZeroDivisionError\<close> when that mean is zero. The samples are a bounded window: the
  most recent durations between receptions, at most \<open>maxlen\<close> of them, the first
  sample ever recorded being the time from construction to the first reception. So
  for arrivals at a constant interval \<open>D\<close>, not zero, \<^verbatim>\<open>get_fps\<close> returns \<open>1 / D\<close> once the
  window holds inter-arrival durations only: after \<open>maxlen\<close> arrivals that follow a
  first one.
\<close>

theorem get_fps_spec:
  "(length (fps_history v) < 2 \<longrightarrow> get_fps v = Inr 0) \<and>
   (2 \<le> length (fps_history v) \<longrightarrow>
      get_fps v =
        (if sum_list (fps_history v) = 0 then Inl ZeroDivisionError
         else Inr (1 / (sum_list (fps_history v) / real (length (fps_history v)))))) \<and>
   (length (fps_history v) \<le> maxlen \<longrightarrow>
      fps_history (arrivals ts v) =
        drop (length (fps_history v) + length ts - maxlen)
          (fps_history v @ gaps (last_frame_time v) ts) \<and>
      length (fps_history (arrivals ts v)) \<le> maxlen) \<and>
   (length (fps_history v) \<le> maxlen \<and> maxlen \<le> length ts \<and>
    (\<forall>d \<in> set (gaps t0 ts). d = D) \<and> D \<noteq> 0 \<longrightarrow>
      get_fps (arrivals (t0 # ts) v) = Inr (1 / D))"
proof -
  have a: "length (fps_history v) < 2 \<longrightarrow> get_fps v = Inr 0"
    by (simp add: get_fps_def)
  have b: "2 \<le> length (fps_history v) \<longrightarrow>
      get_fps v =
        (if sum_list (fps_history v) = 0 then Inl ZeroDivisionError
         else Inr (1 / (sum_list (fps_history v) / real (length (fps_history v)))))"
    by (auto simp: get_fps_def Let_def)
  have c: "length (fps_history v) \<le> maxlen \<longrightarrow>
      fps_history (arrivals ts v) =
        drop (length (fps_history v) + length ts - maxlen)
          (fps_history v @ gaps (last_frame_time v) ts) \<and>
      length (fps_history (arrivals ts v)) \<le> maxlen"
  proof
    assume le: "length (fps_history v) \<le> maxlen"
    from arrivals_window [OF le, of ts]
    have w: "fps_history (arrivals ts v) =
        drop (length (fps_history v) + length ts - maxlen)
          (fps_history v @ gaps (last_frame_time v) ts)"
      by simp
    have "length (fps_history (arrivals ts v)) \<le> maxlen"
      by (simp add: w length_gaps)
    with w show "fps_history (arrivals ts v) =
        drop (length (fps_history v) + length ts - maxlen)
          (fps_history v @ gaps (last_frame_time v) ts) \<and>
      length (fps_history (arrivals ts v)) \<le> maxlen"
      by simp
  qed
  have d: "length (fps_history v) \<le> maxlen \<and> maxlen \<le> length ts \<and>
    (\<forall>d \<in> set (gaps t0 ts). d = D) \<and> D \<noteq> 0 \<longrightarrow>
      get_fps (arrivals (t0 # ts) v) = Inr (1 / D)"
    using get_fps_steady by blast
  from a b c d show ?thesis by blast
qed

theorem get_fps_spec_witness:
  "get_fps (CameraViewer_init [] 0) = Inr 0 \<and>
   get_fps (arrivals [10] (CameraViewer_init [] 0)) = Inr 0 \<and>
   fps_history (arrivals [10, 21 / 2, 11] (CameraViewer_init [] 0)) = [10, 1 / 2, 1 / 2] \<and>
   get_fps (arrivals [10, 21 / 2, 11] (CameraViewer_init [] 0)) = Inr (3 / 11) \<and>
   get_fps (arrivals [100, 100] (CameraViewer_init [] 100)) = Inl ZeroDivisionError \<and>
   get_fps (arrivals (10 # readings 10 (1 / 2) 30) (CameraViewer_init [] 0)) = Inr 2"
proof -
  have h: "fps_history (arrivals [10, 21 / 2, 11] (CameraViewer_init [] 0)) = [10, 1 / 2, 1 / 2]"
    "fps_history (arrivals [100, 100] (CameraViewer_init [] 100)) = [0, 0]"
    "fps_history (arrivals [10] (CameraViewer_init [] 0)) = [10]"
    "fps_history (CameraViewer_init [] 0) = []"
    by (simp_all add: CameraViewer_init_def arrivals_def update_fps_def deque_append_def maxlen_def)
  have a: "get_fps (CameraViewer_init [] 0) = Inr 0"
    using get_fps_spec [THEN conjunct1, of "CameraViewer_init [] 0"] by (simp add: h)
  have b: "get_fps (arrivals [10] (CameraViewer_init [] 0)) = Inr 0"
    using get_fps_spec [THEN conjunct1, of "arrivals [10] (CameraViewer_init [] 0)"]
    by (simp add: h)
  have c: "get_fps (arrivals [10, 21 / 2, 11] (CameraViewer_init [] 0)) = Inr (3 / 11)"
    using get_fps_spec [THEN conjunct2, THEN conjunct1,
        of "arrivals [10, 21 / 2, 11] (CameraViewer_init [] 0)"]
    by (simp add: h)
  have d: "get_fps (arrivals [100, 100] (CameraViewer_init [] 100)) = Inl ZeroDivisionError"
    using get_fps_spec [THEN conjunct2, THEN conjunct1,
        of "arrivals [100, 100] (CameraViewer_init [] 100)"]
    by (simp add: h)
  have e: "get_fps (arrivals (10 # readings 10 (1 / 2) 30) (CameraViewer_init [] 0)) = Inr 2"
    using get_fps_spec [THEN conjunct2, THEN conjunct2, THEN conjunct2,
        of "CameraViewer_init [] 0" "readings 10 (1 / 2) 30" 10 "1 / 2"]
    by (simp add: h gaps_readings length_readings maxlen_def)
  from h(1) a b c d e show ?thesis by blast
qed

text \<open>
  With 2 samples or more \<^verbatim>\<open>get_fps\<close> need not return \<open>1 / D\<close>, nor return at all: three
  arrivals half a second apart, the first one ten seconds after construction, give
  \<open>3 / 11\<close> and not 2; and two arrivals at the clock reading of construction give a
  zero mean and \<^verbatim>\<open>ZeroDivisionError\<close>.
\<close>

theorem get_fps_counterexample:
  "gaps 10 [21 / 2, 11] = [1 / 2, 1 / 2] \<and>
   length (fps_history (arrivals [10, 21 / 2, 11] (CameraViewer_init [] 0))) = 3 \<and>
   get_fps (arrivals [10, 21 / 2, 11] (CameraViewer_init [] 0)) = Inr (3 / 11) \<and>
   (3 / 11 :: real) \<noteq> 1 / (1 / 2) \<and>
   length (fps_history (arrivals [100, 100] (CameraViewer_init [] 100))) = 2 \<and>
   get_fps (arrivals [100, 100] (CameraViewer_init [] 100)) = Inl ZeroDivisionError"
  by (simp add: get_fps_def CameraViewer_init_def arrivals_def update_fps_def deque_append_def
      maxlen_def)

subsection \<open>Receiving\<close>

text \<open>
  Claim C4. When no message arrives within the timeout, \<^verbatim>\<open>receive_frame\<close> returns
  \<^verbatim>\<open>None\<close> instead of raising, and leaves the FPS window as it was. Every call of
  \<^verbatim>\<open>receive_frame\<close> makes exactly one \<^verbatim>\<open>recv()\<close> on the socket: there is no retry.
\<close>

theorem receive_frame_timeout:
  "(times_out (socket v) \<longrightarrow>
      fst (receive_frame unpackb now v) = Inr PyNone \<and>
      fps_history (snd (receive_frame unpackb now v)) = fps_history v \<and>
      last_frame_time (snd (receive_frame unpackb now v)) = last_frame_time v) \<and>
   recv_calls (socket (snd (receive_frame unpackb now v))) = recv_calls (socket v) + 1 \<and>
   incoming (socket (snd (receive_frame unpackb now v))) = tl (incoming (socket v))"
  by (auto simp: receive_frame_def recv_def times_out_def update_fps_def
      split: list.splits recv_outcome.splits sum.splits)

theorem receive_frame_timeout_witness:
  "times_out (socket (CameraViewer_init [] 7)) \<and>
   receive_frame unpackb_plain 12 (CameraViewer_init [] 7) =
     (Inr PyNone, (CameraViewer_init [] 7)\<lparr>socket := \<lparr>incoming = [], recv_calls = 1\<rparr>\<rparr>) \<and>
   times_out (socket (CameraViewer_init [Again, Received (Packed [])] 7)) \<and>
   receive_frame unpackb_plain 12 (CameraViewer_init [Again, Received (Packed [])] 7) =
     (Inr PyNone, (CameraViewer_init [Again, Received (Packed [])] 7)
        \<lparr>socket := \<lparr>incoming = [Received (Packed [])], recv_calls = 1\<rparr>\<rparr>)"
  using receive_frame_timeout [of "CameraViewer_init [] 7" unpackb_plain 12]
    receive_frame_timeout [of "CameraViewer_init [Again, Received (Packed [])] 7" unpackb_plain 12]
  by (simp add: CameraViewer_init_def times_out_def receive_frame_def recv_def)

subsection \<open>Frames\<close>










subsection \<open>Publishing\<close>

lemma keys_map_of: "k \<in> keys d \<longleftrightarrow> map_of d k \<noteq> None"
  by (simp add: keys_def map_of_eq_None_iff)

lemma encode_message_ok:
  assumes "''timestamp'' \<in> keys frame" "''image'' \<in> keys frame"
  shows "\<exists>message. encode_message frame = Inr message \<and>
     map_of message ''timestamp'' = map_of frame ''timestamp'' \<and>
     map_of message ''image'' = map_of frame ''image'' \<and>
     map_of message ''depth'' = map_of frame ''depth'' \<and>
     keys message = {''timestamp'', ''image''} \<union> (if contains ''depth'' frame then {''depth''} else {})"
proof -
  from assms obtain ts img where ts: "map_of frame ''timestamp'' = Some ts"
    and img: "map_of frame ''image'' = Some img"
    by (auto simp: keys_map_of)
  show ?thesis
  proof (cases "map_of frame ''depth''")
    case None
    then show ?thesis
      using ts img by (auto simp: encode_message_def getitem_def contains_def keys_def)
  next
    case (Some d)
    then show ?thesis
      using ts img by (auto simp: encode_message_def getitem_def contains_def keys_def)
  qed
qed

text \<open>
  Claim C5. Without a socket \<^verbatim>\<open>publish_frame\<close> returns at once and changes nothing. With a
  socket, and a frame that has a timestamp and an image, it makes exactly one \<^verbatim>\<open>send\<close>,
  of a message that carries the frame's timestamp and image, and the frame's depth
  exactly when the frame has one.
\<close>

theorem publish_frame_contract:
  "(zmq_socket s = None \<longrightarrow> publish_frame frame s = Inr s) \<and>
   (zmq_socket s \<noteq> None \<and> ''timestamp'' \<in> keys frame \<and> ''image'' \<in> keys frame \<longrightarrow>
      (\<exists>message.
         publish_frame frame s = Inr (s\<lparr>calls := calls s @ [SocketSend (Packed message)]\<rparr>) \<and>
         map_of message ''timestamp'' = map_of frame ''timestamp'' \<and>
         map_of message ''image'' = map_of frame ''image'' \<and>
         map_of message ''depth'' = map_of frame ''depth'' \<and>
         keys message =
           {''timestamp'', ''image''} \<union> (if contains ''depth'' frame then {''depth''} else {})))"
proof (intro conjI impI)
  assume "zmq_socket s = None"
  then show "publish_frame frame s = Inr s"
    by (simp add: publish_frame_def)
next
  assume a: "zmq_socket s \<noteq> None \<and> ''timestamp'' \<in> keys frame \<and> ''image'' \<in> keys frame"
  then obtain message where m: "encode_message frame = Inr message"
    and rest: "map_of message ''timestamp'' = map_of frame ''timestamp''"
      "map_of message ''image'' = map_of frame ''image''"
      "map_of message ''depth'' = map_of frame ''depth''"
      "keys message =
         {''timestamp'', ''image''} \<union> (if contains ''depth'' frame then {''depth''} else {})"
    using encode_message_ok by blast
  from a m have "publish_frame frame s = Inr (s\<lparr>calls := calls s @ [SocketSend (Packed message)]\<rparr>)"
    by (auto simp: publish_frame_def)
  with rest show "\<exists>message.
         publish_frame frame s = Inr (s\<lparr>calls := calls s @ [SocketSend (Packed message)]\<rparr>) \<and>
         map_of message ''timestamp'' = map_of frame ''timestamp'' \<and>
         map_of message ''image'' = map_of frame ''image'' \<and>
         map_of message ''depth'' = map_of frame ''depth'' \<and>
         keys message =
           {''timestamp'', ''image''} \<union> (if contains ''depth'' frame then {''depth''} else {})"
    by blast
qed

theorem publish_frame_contract_witness:
  "zmq_socket (snd (start_zmq_server True True 5556 (example_streamer True))) \<noteq> None \<and>
   publish_frame
     [(''image'', Image [[[3, 2, 1], [6, 5, 4]]]), (''timestamp'', Float 100),
      (''depth'', Depth [[7, 8]])]
     (snd (start_zmq_server True True 5556 (example_streamer True))) =
   Inr ((snd (start_zmq_server True True 5556 (example_streamer True)))
     \<lparr>calls := calls (snd (start_zmq_server True True 5556 (example_streamer True))) @
        [SocketSend (Packed [(''timestamp'', Float 100), (''image'', Image [[[3, 2, 1], [6, 5, 4]]]),
           (''depth'', Depth [[7, 8]])])]\<rparr>) \<and>
   publish_frame
     [(''image'', Image [[[3, 2, 1], [6, 5, 4]]]), (''timestamp'', Float 100)]
     (example_streamer False) = Inr (example_streamer False)"
  using publish_frame_contract [of "snd (start_zmq_server True True 5556 (example_streamer True))"
      "[(''image'', Image [[[3, 2, 1], [6, 5, 4]]]), (''timestamp'', Float 100),
        (''depth'', Depth [[7, 8]])]"]
    publish_frame_contract [of "example_streamer False"
      "[(''image'', Image [[[3, 2, 1], [6, 5, 4]]]), (''timestamp'', Float 100)]"]
  by (simp add: publish_frame_def encode_message_def getitem_def start_zmq_server_def
      example_streamer_def ZEDStreamer_init_def Let_def)

subsection \<open>The streaming loop and shutdown\<close>


















text \<open>
  Claim C6. A failed acquisition is not fatal: when \<^verbatim>\<open>zed.grab\<close> fails, \<^verbatim>\<open>grab_frame\<close>
  returns \<^verbatim>\<open>None\<close> and the loop goes on with its next iteration, with nothing published
  or counted. A failure to open the device is fatal: \<^verbatim>\<open>__init__\<close> raises
  \<^verbatim>\<open>RuntimeError\<close>, and \<^verbatim>\<open>main\<close> ends with that error after the attempt to open as its
  only call, so that no streaming ever starts.
\<close>

theorem error_severity:
  "(grab_status tk \<noteq> SUCCESS \<and> running s \<and>
    \<not> (truthy duration \<and> t_duration tk - start_time > the duration) \<longrightarrow>
      fst (grab_frame tk s) = None \<and>
      run_loop display duration start_time (Tick tk # steps) s n t =
        run_loop display duration start_time steps (s\<lparr>calls := calls s @ [ZedGrab]\<rparr>) n t) \<and>
   (open_status out \<noteq> SUCCESS \<longrightarrow>
      ZEDStreamer_init lower (arg_resolution a) (arg_fps a) (arg_depth a) (arg_serial a)
        (open_status out) (camera_width out) (camera_height out) =
        Inl (RuntimeError (open_status out),
          [ZedOpen \<lparr>camera_resolution = parse_resolution lower (arg_resolution a),
                    camera_fps = arg_fps a,
                    depth_mode = (if arg_depth a then ULTRA else NONE),
                    serial_number = arg_serial a\<rparr>]) \<and>
      main lower a out =
        Some (Some (RuntimeError (open_status out)),
          [ZedOpen \<lparr>camera_resolution = parse_resolution lower (arg_resolution a),
                    camera_fps = arg_fps a,
                    depth_mode = (if arg_depth a then ULTRA else NONE),
                    serial_number = arg_serial a\<rparr>]))"
proof (intro conjI impI)
  assume a: "grab_status tk \<noteq> SUCCESS \<and> running s \<and>
    \<not> (truthy duration \<and> t_duration tk - start_time > the duration)"
  then have g: "grab_frame tk s = (None, s\<lparr>calls := calls s @ [ZedGrab]\<rparr>)"
    by (simp add: grab_frame_def Let_def)
  then show "fst (grab_frame tk s) = None" by simp
  from a g have "iteration display duration start_time tk s n t =
      Continue (s\<lparr>calls := calls s @ [ZedGrab]\<rparr>) n t"
    by (auto simp: iteration_def)
  with a show "run_loop display duration start_time (Tick tk # steps) s n t =
        run_loop display duration start_time steps (s\<lparr>calls := calls s @ [ZedGrab]\<rparr>) n t"
    by simp
next
  assume a: "open_status out \<noteq> SUCCESS"
  then show i: "ZEDStreamer_init lower (arg_resolution a) (arg_fps a) (arg_depth a) (arg_serial a)
        (open_status out) (camera_width out) (camera_height out) =
        Inl (RuntimeError (open_status out),
          [ZedOpen \<lparr>camera_resolution = parse_resolution lower (arg_resolution a),
                    camera_fps = arg_fps a,
                    depth_mode = (if arg_depth a then ULTRA else NONE),
                    serial_number = arg_serial a\<rparr>])"
    by (simp add: ZEDStreamer_init_def Let_def)
  show "main lower a out =
        Some (Some (RuntimeError (open_status out)),
          [ZedOpen \<lparr>camera_resolution = parse_resolution lower (arg_resolution a),
                    camera_fps = arg_fps a,
                    depth_mode = (if arg_depth a then ULTRA else NONE),
                    serial_number = arg_serial a\<rparr>])"
    by (simp add: main_def i)
qed

theorem error_severity_witness:
  "grab_status (example_tick\<lparr>grab_status := FAILURE 2\<rparr>) \<noteq> SUCCESS \<and>
   running ((example_streamer False)\<lparr>running := True\<rparr>) \<and>
   run_loop False None 100
     [Tick (example_tick\<lparr>grab_status := FAILURE 2\<rparr>), Tick example_tick, Interrupt]
     ((example_streamer False)\<lparr>running := True\<rparr>) 0 100 =
   Some (None, (example_streamer False)
     \<lparr>running := True,
       image_mat := [[[1, 2, 3, 255], [4, 5, 6, 255]]],
       calls := calls (example_streamer False) @ [ZedGrab, ZedGrab, ZedRetrieveImage]\<rparr>) \<and>
   open_status (example_outside (FAILURE 1) [Tick example_tick, Interrupt]) \<noteq> SUCCESS \<and>
   main ascii_lower example_args (example_outside (FAILURE 1) [Tick example_tick, Interrupt]) =
     Some (Some (RuntimeError (FAILURE 1)),
       [ZedOpen \<lparr>camera_resolution = HD720, camera_fps = 30, depth_mode = NONE,
                 serial_number = None\<rparr>])"
  using error_severity [of "example_tick\<lparr>grab_status := FAILURE 2\<rparr>"
      "(example_streamer False)\<lparr>running := True\<rparr>" None 100 False
      "[Tick example_tick, Interrupt]" 0 100
      "example_outside (FAILURE 1) [Tick example_tick, Interrupt]" ascii_lower example_args]
  by (simp add: iteration_def grab_frame_def write_video_def fps_report_def truthy_def
      example_streamer_def ZEDStreamer_init_def example_args_def example_outside_def
      example_tick_def parse_resolution_def resolutions_def ascii_lower_def ascii_lower_char_def
      Let_def)




subsection \<open>Encoding and decoding\<close>

lemma select_images_none:
  "''images'' \<notin> keys d \<Longrightarrow> select_images (Dict d) = Inr NoImages"
  by (simp add: select_images_def keys_map_of)

text \<open>
  Claim C2, as amended. The message \<^verbatim>\<open>publish_frame\<close> builds from a frame carries the
  frame's image, its timestamp and, when the frame has one, its depth map, each
  unchanged. The viewer does not decode such a message: it reads the keys \<^verbatim>\<open>images\<close> and
  \<^verbatim>\<open>timestamps\<close>, which the message lacks, and so it finds no images in it and goes
  on to the next message before any call of \<^verbatim>\<open>decode_image\<close>, whatever \<^verbatim>\<open>unpackb\<close> makes
  of the values as long as it invents no key.
\<close>

theorem encode_then_view:
  "''timestamp'' \<in> keys frame \<and> ''image'' \<in> keys frame \<longrightarrow>
     (\<exists>message.
        encode_message frame = Inr message \<and>
        map_of message ''image'' = map_of frame ''image'' \<and>
        map_of message ''timestamp'' = map_of frame ''timestamp'' \<and>
        map_of message ''depth'' = map_of frame ''depth'' \<and>
        (\<forall>d. unpackb (Packed message) = Inr (Dict d) \<and> keys d \<subseteq> keys message \<longrightarrow>
           view_message unpackb (Packed message) = Inr NoImages))"
proof
  assume a: "''timestamp'' \<in> keys frame \<and> ''image'' \<in> keys frame"
  then obtain message where m: "encode_message frame = Inr message"
    and v: "map_of message ''timestamp'' = map_of frame ''timestamp''"
      "map_of message ''image'' = map_of frame ''image''"
      "map_of message ''depth'' = map_of frame ''depth''"
    and k: "keys message =
         {''timestamp'', ''image''} \<union> (if contains ''depth'' frame then {''depth''} else {})"
    using encode_message_ok by blast
  have n: "''images'' \<notin> keys message"
    by (simp add: k)
  have "view_message unpackb (Packed message) = Inr NoImages"
    if "unpackb (Packed message) = Inr (Dict d) \<and> keys d \<subseteq> keys message" for d
  proof -
    from that n have "''images'' \<notin> keys d" by blast
    from select_images_none [OF this] that show ?thesis
      by (simp add: view_message_def)
  qed
  with m v show "\<exists>message.
        encode_message frame = Inr message \<and>
        map_of message ''image'' = map_of frame ''image'' \<and>
        map_of message ''timestamp'' = map_of frame ''timestamp'' \<and>
        map_of message ''depth'' = map_of frame ''depth'' \<and>
        (\<forall>d. unpackb (Packed message) = Inr (Dict d) \<and> keys d \<subseteq> keys message \<longrightarrow>
           view_message unpackb (Packed message) = Inr NoImages)"
    by blast
qed

theorem encode_then_view_witness:
  "encode_message [(''image'', Image [[[3, 2, 1], [6, 5, 4]]]), (''timestamp'', Float 100),
      (''depth'', Depth [[7, 8]])] =
     Inr [(''timestamp'', Float 100), (''image'', Image [[[3, 2, 1], [6, 5, 4]]]),
          (''depth'', Depth [[7, 8]])] \<and>
   unpackb_plain (Packed [(''timestamp'', Float 100), (''image'', Image [[[3, 2, 1], [6, 5, 4]]]),
          (''depth'', Depth [[7, 8]])]) =
     Inr (Dict [(''timestamp'', Float 100), (''image'', Image [[[3, 2, 1], [6, 5, 4]]]),
          (''depth'', Depth [[7, 8]])]) \<and>
   view_message unpackb_plain
     (Packed [(''timestamp'', Float 100), (''image'', Image [[[3, 2, 1], [6, 5, 4]]]),
          (''depth'', Depth [[7, 8]])]) = Inr NoImages"
  using encode_then_view [of "[(''image'', Image [[[3, 2, 1], [6, 5, 4]]]), (''timestamp'', Float 100),
      (''depth'', Depth [[7, 8]])]" unpackb_plain]
  by (simp add: encode_message_def getitem_def view_message_def select_images_def keys_def)

text \<open>
  Decoding what was encoded does not give the image back: for a frame as \<^verbatim>\<open>grab_frame\<close>
  returns it, the viewer finds no images in the message of \<^verbatim>\<open>publish_frame\<close> and decodes
  none.
\<close>

theorem decode_encode_counterexample:
  "fst (grab_frame example_tick (example_streamer False)) =
     Some [(''image'', Image [[[3, 2, 1], [6, 5, 4]]]), (''timestamp'', Float 100)] \<and>
   encode_message [(''image'', Image [[[3, 2, 1], [6, 5, 4]]]), (''timestamp'', Float 100)] =
     Inr [(''timestamp'', Float 100), (''image'', Image [[[3, 2, 1], [6, 5, 4]]])] \<and>
   view_message unpackb_plain
     (Packed [(''timestamp'', Float 100), (''image'', Image [[[3, 2, 1], [6, 5, 4]]])]) =
     Inr NoImages"
  by (simp add: encode_message_def getitem_def view_message_def select_images_def grab_frame_def
      example_tick_def example_streamer_def ZEDStreamer_init_def Let_def)

end
